theory Spec2Isabelle
  imports Main "HOL-Library.Multiset"
begin

section \<open>Strings and characters\<close>

text \<open>
  JavaScript strings are modelled as \<^typ>\<open>string\<close>; a character stands for the code
  unit of the same number. The character classes and case mappings below are those of
  the regular expressions of \<^verbatim>\<open>album.js\<close> (no \<^verbatim>\<open>u\<close> flag) on ASCII; a code unit
  above 127 is neither a letter, a digit nor white space here and has no other case.
\<close>

definition code :: "char \<Rightarrow> nat" where
  "code c = of_char c"

definition in_range :: "char \<Rightarrow> char \<Rightarrow> char \<Rightarrow> bool" where
  "in_range lo hi c = (code lo \<le> code c \<and> code c \<le> code hi)"

definition is_upper :: "char \<Rightarrow> bool" where
  "is_upper c = in_range (CHR ''A'') (CHR ''Z'') c"

definition is_lower :: "char \<Rightarrow> bool" where
  "is_lower c = in_range (CHR ''a'') (CHR ''z'') c"

definition is_digit :: "char \<Rightarrow> bool" where
  "is_digit c = in_range (CHR ''0'') (CHR ''9'') c"

definition is_word :: "char \<Rightarrow> bool" where
  "is_word c = (is_upper c \<or> is_lower c \<or> is_digit c \<or> c = CHR ''_'')"

definition is_space :: "char \<Rightarrow> bool" where
  "is_space c = (code c = 9 \<or> code c = 10 \<or> code c = 11 \<or> code c = 12 \<or> code c = 13 \<or> code c = 32)"

definition toLowerCase_char :: "char \<Rightarrow> char" where
  "toLowerCase_char c = (if is_upper c then char_of (code c + 32) else c)"

definition toUpperCase_char :: "char \<Rightarrow> char" where
  "toUpperCase_char c = (if is_lower c then char_of (code c - 32) else c)"

definition toLowerCase :: "string \<Rightarrow> string" where
  "toLowerCase s = map toLowerCase_char s"

definition toUpperCase :: "string \<Rightarrow> string" where
  "toUpperCase s = map toUpperCase_char s"

text \<open>
  \<^verbatim>\<open>'' + count\<close> for a count: the decimal digits of a natural number.
\<close>

fun num_to_string :: "nat \<Rightarrow> string" where
  "num_to_string n =
     (if n < 10 then [char_of (48 + n)]
      else num_to_string (n div 10) @ [char_of (48 + n mod 10)])"

declare num_to_string.simps [simp del]

text \<open>\<^verbatim>\<open>Array.prototype.join\<close> on an array of strings.\<close>

fun join :: "string \<Rightarrow> string list \<Rightarrow> string" where
  "join sep [] = []"
| "join sep [x] = x"
| "join sep (x # y # ys) = x @ sep @ join sep (y # ys)"

text \<open>
  The comparison of two strings by \<^verbatim>\<open><\<close>: lexicographic on code units, a proper
  prefix being smaller.
\<close>

fun string_lt :: "string \<Rightarrow> string \<Rightarrow> bool" where
  "string_lt [] [] = False"
| "string_lt [] (d # t) = True"
| "string_lt (c # s) [] = False"
| "string_lt (c # s) (d # t) =
     (if code c < code d then True else if code d < code c then False else string_lt s t)"

subsection \<open>sanitise (album.js, lines 136 to 138)\<close>

text \<open>
  \<^verbatim>\<open>filename.replace(/[^a-z0-9-_]/ig, '')\<close>: every character matched by the negated
  class is replaced by the empty string. Under the \<^verbatim>\<open>i\<close> flag the class
  \<^verbatim>\<open>a-z\<close> also holds the upper-case letters.
\<close>

definition sanitise_class :: "char \<Rightarrow> bool" where
  "sanitise_class c =
     (is_lower c \<or> is_upper c \<or> is_digit c \<or> c = CHR ''-'' \<or> c = CHR ''_'')"

fun sanitise :: "string \<Rightarrow> string" where
  "sanitise [] = []"
| "sanitise (c # s) = (if \<not> sanitise_class c then sanitise s else c # sanitise s)"

subsection \<open>titleize (album.js, lines 140 to 159)\<close>

text \<open>
  A global \<^verbatim>\<open>replace\<close>: the scan goes left to right; where the pattern matches at
  the current position the replacement is written and the scan goes on after the match,
  elsewhere the character is copied. The matcher returns the replacement and the
  length of the match (at least one); the first argument counts the characters of a match
  still to be skipped.
\<close>

fun replace_g :: "(string \<Rightarrow> (string \<times> nat) option) \<Rightarrow> nat \<Rightarrow> string \<Rightarrow> string" where
  "replace_g m k [] = []"
| "replace_g m (Suc k) (c # s) = replace_g m k s"
| "replace_g m 0 (c # s) =
     (case m (c # s) of
        Some (rep, len) \<Rightarrow> rep @ replace_g m (len - 1) s
      | None \<Rightarrow> c # replace_g m 0 s)"

text \<open>
  \<^verbatim>\<open>/([A-Z\d]+)([A-Z][a-z])/\<close> with \<^verbatim>\<open>'$1 $2'\<close>: the first group is greedy and gives
  characters back one at a time, down to one, until an upper-case and a lower-case
  letter follow it.
\<close>

fun match_acronym_try :: "nat \<Rightarrow> string \<Rightarrow> (string \<times> nat) option" where
  "match_acronym_try 0 s = None"
| "match_acronym_try (Suc k) s =
     (case drop (Suc k) s of
        a # b # t \<Rightarrow>
          if is_upper a \<and> is_lower b then Some (take (Suc k) s @ '' '' @ [a, b], Suc k + 2)
          else match_acronym_try k s
      | _ \<Rightarrow> match_acronym_try k s)"

definition match_acronym :: "string \<Rightarrow> (string \<times> nat) option" where
  "match_acronym s =
     match_acronym_try (length (takeWhile (\<lambda>c. is_upper c \<or> is_digit c) s)) s"

text \<open>\<^verbatim>\<open>/([a-z\d])([A-Z])/\<close> with \<^verbatim>\<open>'$1 $2'\<close>.\<close>

fun match_camel :: "string \<Rightarrow> (string \<times> nat) option" where
  "match_camel (a # b # t) =
     (if (is_lower a \<or> is_digit a) \<and> is_upper b then Some ([a] @ '' '' @ [b], 2) else None)"
| "match_camel s = None"

text \<open>\<^verbatim>\<open>/_/\<close> with \<^verbatim>\<open>' '\<close>.\<close>

fun match_underscore :: "string \<Rightarrow> (string \<times> nat) option" where
  "match_underscore (c # t) = (if c = CHR ''_'' then Some ('' '', 1) else None)"
| "match_underscore [] = None"

text \<open>
  \<^verbatim>\<open>replace(/^\W*[a-z]/, w => w.toUpperCase())\<close>: anchored at the start and not global.
  The run of non-word characters is greedy; giving characters back cannot help, since
  each of them is a non-word character and the next atom wants a letter.
\<close>

definition capitalize :: "string \<Rightarrow> string" where
  "capitalize s =
     (let w = takeWhile (\<lambda>c. \<not> is_word c) s
      in case dropWhile (\<lambda>c. \<not> is_word c) s of
           [] \<Rightarrow> s
         | c # t \<Rightarrow> if is_lower c then toUpperCase (w @ [c]) @ t else s)"

definition trim :: "string \<Rightarrow> string" where
  "trim s = rev (dropWhile is_space (rev (dropWhile is_space s)))"

text \<open>
  \<^verbatim>\<open>split(/\s+/)\<close>: the flag tells that the scan is inside a run of white space, the
  second argument is the piece being read.
\<close>

fun split_ws :: "bool \<Rightarrow> string \<Rightarrow> string \<Rightarrow> string list" where
  "split_ws insep cur [] = [cur]"
| "split_ws insep cur (c # s) =
     (if is_space c then (if insep then split_ws True cur s else cur # split_ws True [] s)
      else split_ws False (cur @ [c]) s)"

definition titleize :: "string \<Rightarrow> string" where
  "titleize str =
     join '' '' (map capitalize (split_ws False [] (trim (capitalize (toLowerCase
       (replace_g match_underscore 0 (replace_g match_camel 0 (replace_g match_acronym 0 str))))))))"

section \<open>Data model\<close>

text \<open>
  A media item, as far as \<^verbatim>\<open>album.js\<close> reads it: \<^verbatim>\<open>type\<close>, \<^verbatim>\<open>filename\<close> and
  \<^verbatim>\<open>meta.date\<close>. The date is a timestamp (an integer number of milliseconds) or
  \<^verbatim>\<open>undefined\<close>.
\<close>

record media =
  type :: string
  filename :: string
  date :: "int option"

text \<open>
  An entry of \<^verbatim>\<open>previews\<close>: the sentinel object \<^verbatim>\<open>PREVIEW_MISSING\<close> (lines 28 to 32),
  a media item, or the \<^verbatim>\<open>null\<close> that \<^verbatim>\<open>_.flatten\<close> keeps for a child whose
  \<^verbatim>\<open>previews\<close> is still \<^verbatim>\<open>null\<close>. The sentinel is private to the module and
  \<^verbatim>\<open>files\<close> holds media items, so no entry of \<^verbatim>\<open>files\<close> is identical to it.
\<close>

datatype preview = PREVIEW_MISSING | File media | Null

record album_stats =
  albums :: nat
  photos :: nat
  videos :: nat
  fromDate :: "int option"
  toDate :: "int option"
  total :: nat

text \<open>
  The fields of an album other than its children. \<^verbatim>\<open>null\<close> and \<^verbatim>\<open>undefined\<close> are
  \<^term>\<open>None\<close>.
\<close>

record album_node =
  ident :: nat
  title :: string
  basename :: string
  files :: "media list"
  depth :: nat
  home :: bool
  path :: "string option"
  url :: "string option"
  stats :: "album_stats option"
  summary :: "string option"
  previews :: "preview list option"

datatype album = Album (node: album_node) (albums: "album list")

record options =
  albumsOutputFolder :: "string option"
  index :: "string option"
  titleizeAlbumNames :: bool
  sortMediaBy :: "string option"
  sortMediaDirection :: "string option"
  sortAlbumsBy :: "string option"
  sortAlbumsDirection :: "string option"
  sortAlmbumsNumbersFirst :: bool

text \<open>The object \<^verbatim>\<open>{}\<close> of \<^verbatim>\<open>options = options || {}\<close>.\<close>

definition empty_options :: options where
  "empty_options =
     \<lparr>albumsOutputFolder = None, index = None, titleizeAlbumNames = False,
      sortMediaBy = None, sortMediaDirection = None, sortAlbumsBy = None,
      sortAlbumsDirection = None, sortAlmbumsNumbersFirst = False\<rparr>"

text \<open>
  \<^verbatim>\<open>path.join\<close> and \<^verbatim>\<open>url.resolve\<close> belong to the Node.js runtime, not to this
  repository: they are parameters of the model.
\<close>

record runtime =
  path_join :: "string \<Rightarrow> string \<Rightarrow> string"
  url_resolve :: "string \<Rightarrow> string \<Rightarrow> string"

datatype error = TypeError

text \<open>\<^verbatim>\<open>s || d\<close> for a string or \<^verbatim>\<open>undefined\<close>: the empty string is falsy.\<close>

definition or_default :: "string option \<Rightarrow> string \<Rightarrow> string" where
  "or_default v d = (case v of None \<Rightarrow> d | Some s \<Rightarrow> if s = [] then d else s)"

section \<open>The lodash functions used by album.js\<close>

text \<open>
  \<^verbatim>\<open>_.compact\<close> drops the falsy entries: of numbers or \<^verbatim>\<open>undefined\<close>, the
  \<^verbatim>\<open>undefined\<close> and the zero; of strings, the empty one.
\<close>

fun compact :: "'a::zero option list \<Rightarrow> 'a list" where
  "compact [] = []"
| "compact (None # vs) = compact vs"
| "compact (Some v # vs) = (if v = 0 then compact vs else v # compact vs)"

fun compact_strings :: "string list \<Rightarrow> string list" where
  "compact_strings [] = []"
| "compact_strings (v # vs) = (if v = [] then compact_strings vs else v # compact_strings vs)"

text \<open>
  \<^verbatim>\<open>_.min\<close> and \<^verbatim>\<open>_.max\<close>: \<^verbatim>\<open>undefined\<close> on the empty array, else a scan that
  keeps the entry smaller (greater) than the one kept so far.
\<close>

fun extremum :: "(int \<Rightarrow> int \<Rightarrow> bool) \<Rightarrow> int \<Rightarrow> int list \<Rightarrow> int" where
  "extremum cmp computed [] = computed"
| "extremum cmp computed (v # vs) = extremum cmp (if cmp v computed then v else computed) vs"

definition js_min :: "int list \<Rightarrow> int option" where
  "js_min vs = (case vs of [] \<Rightarrow> None | v # vs' \<Rightarrow> Some (extremum (\<lambda>a b. a < b) v vs'))"

definition js_max :: "int list \<Rightarrow> int option" where
  "js_max vs = (case vs of [] \<Rightarrow> None | v # vs' \<Rightarrow> Some (extremum (\<lambda>a b. a > b) v vs'))"

text \<open>
  The values an iteratee of \<^verbatim>\<open>SORT_ALBUMS_BY\<close> or \<^verbatim>\<open>SORT_MEDIA_BY\<close> returns. One
  sort compares numbers and \<^verbatim>\<open>undefined\<close>, or strings; the conversion that
  \<^verbatim>\<open>>\<close> makes between a number and a string is not modelled.
\<close>

datatype jsval = Undefined | Num int | Str string

fun js_gt :: "jsval \<Rightarrow> jsval \<Rightarrow> bool" where
  "js_gt (Num a) (Num b) = (a > b)"
| "js_gt (Str s) (Str t) = string_lt t s"
| "js_gt v w = False"

text \<open>\<^verbatim>\<open>compareAscending\<close> of lodash, on these values.\<close>

definition compareAscending :: "jsval \<Rightarrow> jsval \<Rightarrow> int" where
  "compareAscending val other =
     (if val \<noteq> other then
        (if js_gt val other \<or> val = Undefined then 1
         else if js_gt other val \<or> other = Undefined then - 1
         else 0)
      else 0)"

text \<open>
  \<^verbatim>\<open>compareMultiple\<close> with one criterion: the order is \<^verbatim>\<open>options.sort...Direction\<close>
  (\<^verbatim>\<open>undefined\<close> gives no order, hence ascending); equal criteria fall back to the
  positions in the collection.
\<close>

definition compareMultiple :: "jsval \<times> nat \<times> 'a \<Rightarrow> jsval \<times> nat \<times> 'a \<Rightarrow> string option \<Rightarrow> int" where
  "compareMultiple object other orders =
     (let result = compareAscending (fst object) (fst other)
      in if result \<noteq> 0 then
           (case orders of
              None \<Rightarrow> result
            | Some order \<Rightarrow> result * (if order = ''desc'' then - 1 else 1))
         else int (fst (snd object)) - int (fst (snd other)))"

text \<open>
  \<^verbatim>\<open>Array.prototype.sort\<close> with a comparer that is a strict total order, as
  \<^verbatim>\<open>compareMultiple\<close> is: any sorting algorithm gives the same array; here, insertion.
\<close>

fun insert_sorted :: "('a \<Rightarrow> 'a \<Rightarrow> int) \<Rightarrow> 'a \<Rightarrow> 'a list \<Rightarrow> 'a list" where
  "insert_sorted comparer x [] = [x]"
| "insert_sorted comparer x (y # ys) =
     (if comparer x y \<le> 0 then x # y # ys else y # insert_sorted comparer x ys)"

definition array_sort :: "('a \<Rightarrow> 'a \<Rightarrow> int) \<Rightarrow> 'a list \<Rightarrow> 'a list" where
  "array_sort comparer xs = foldr (insert_sorted comparer) xs []"

text \<open>
  The map of \<^verbatim>\<open>baseOrderBy\<close>: each value with its criterion and its position. An
  iteratee that throws ends the map.
\<close>

fun criteria :: "('a \<Rightarrow> error + jsval) \<Rightarrow> nat \<Rightarrow> 'a list \<Rightarrow> error + (jsval \<times> nat \<times> 'a) list" where
  "criteria iteratee i [] = Inr []"
| "criteria iteratee i (x # xs) =
     (case iteratee x of
        Inl e \<Rightarrow> Inl e
      | Inr c \<Rightarrow>
          (case criteria iteratee (Suc i) xs of
             Inl e \<Rightarrow> Inl e
           | Inr r \<Rightarrow> Inr ((c, i, x) # r)))"

text \<open>
  \<^verbatim>\<open>_.orderBy(collection, iteratee, orders)\<close>. With the iteratee \<^verbatim>\<open>undefined\<close> (a key
  that the table does not have) the criteria are the objects themselves, which
  \<^verbatim>\<open>compareAscending\<close> finds neither greater nor smaller: the order of the positions,
  which is the order of the collection, stays.
\<close>

definition orderBy :: "'a list \<Rightarrow> ('a \<Rightarrow> error + jsval) option \<Rightarrow> string option \<Rightarrow> error + 'a list" where
  "orderBy collection iteratee orders =
     (case iteratee of
        None \<Rightarrow> Inr collection
      | Some f \<Rightarrow>
          (case criteria f 0 collection of
             Inl e \<Rightarrow> Inl e
           | Inr r \<Rightarrow>
               Inr (map (\<lambda>object. snd (snd object))
                      (array_sort (\<lambda>object other. compareMultiple object other orders) r))))"

text \<open>
  \<^verbatim>\<open>_.partition\<close>: each value is pushed, in order, to the first array when the
  predicate is truthy and to the second otherwise.
\<close>

fun partition_loop :: "('a \<Rightarrow> bool) \<Rightarrow> 'a list \<Rightarrow> 'a list \<times> 'a list \<Rightarrow> 'a list \<times> 'a list" where
  "partition_loop predicate [] parts = parts"
| "partition_loop predicate (x # xs) parts =
     partition_loop predicate xs
       (if predicate x then (fst parts @ [x], snd parts) else (fst parts, snd parts @ [x]))"

definition partition_js :: "'a list \<Rightarrow> ('a \<Rightarrow> bool) \<Rightarrow> 'a list \<times> 'a list" where
  "partition_js collection predicate = partition_loop predicate collection ([], [])"

section \<open>The album (album.js)\<close>

definition PREVIEW_COUNT :: nat where
  "PREVIEW_COUNT = 10"

text \<open>
  The tables \<^verbatim>\<open>SORT_ALBUMS_BY\<close> and \<^verbatim>\<open>SORT_MEDIA_BY\<close> (lines 17 to 26), read at a
  key; \<^verbatim>\<open>album.stats.fromDate\<close> throws when \<^verbatim>\<open>stats\<close> is \<^verbatim>\<open>null\<close>.
\<close>

definition date_value :: "int option \<Rightarrow> jsval" where
  "date_value d = (case d of None \<Rightarrow> Undefined | Some t \<Rightarrow> Num t)"

definition SORT_ALBUMS_BY :: "string \<Rightarrow> (album \<Rightarrow> error + jsval) option" where
  "SORT_ALBUMS_BY key =
     (if key = ''title'' then Some (\<lambda>album. Inr (Str (title (node album))))
      else if key = ''start-date'' then
        Some (\<lambda>album. case stats (node album) of
                         None \<Rightarrow> Inl TypeError
                       | Some st \<Rightarrow> Inr (date_value (fromDate st)))
      else if key = ''end-date'' then
        Some (\<lambda>album. case stats (node album) of
                         None \<Rightarrow> Inl TypeError
                       | Some st \<Rightarrow> Inr (date_value (toDate st)))
      else None)"

definition SORT_MEDIA_BY :: "string \<Rightarrow> (media \<Rightarrow> error + jsval) option" where
  "SORT_MEDIA_BY key =
     (if key = ''filename'' then Some (\<lambda>file. Inr (Str (filename file)))
      else if key = ''date'' then Some (\<lambda>file. Inr (date_value (date file)))
      else None)"

text \<open>\<^verbatim>\<open>TABLE[options.key]\<close>: a key that is \<^verbatim>\<open>undefined\<close> finds nothing.\<close>

definition lookup :: "(string \<Rightarrow> 'a option) \<Rightarrow> string option \<Rightarrow> 'a option" where
  "lookup table key = (case key of None \<Rightarrow> None | Some k \<Rightarrow> table k)"

subsection \<open>The constructor (lines 34 to 45) and resetIds (lines 168 to 170)\<close>

text \<open>
  The argument is a string or an object whose properties may be missing. The counter
  \<^verbatim>\<open>index\<close> of the module is passed in and returned.
\<close>

datatype album_opts =
  Title string
| Opts (opts_id: "nat option") (opts_title: "string option")
       (opts_files: "media list option") (opts_albums: "album list option")

definition new_Album :: "album_opts \<Rightarrow> nat \<Rightarrow> album \<times> nat" where
  "new_Album opts0 counter =
     (let opts = (case opts0 of Title s \<Rightarrow> Opts None (Some s) None None | Opts i t f a \<Rightarrow> opts0);
          fresh = (case opts_id opts of None \<Rightarrow> True | Some i \<Rightarrow> i = 0);
          counter' = (if fresh then counter + 1 else counter);
          this_id = (case opts_id opts of None \<Rightarrow> counter' | Some i \<Rightarrow> if i = 0 then counter' else i);
          this_title = or_default (opts_title opts) (''Album '' @ num_to_string this_id)
      in (Album
            \<lparr>ident = this_id, title = this_title, basename = sanitise this_title,
             files = (case opts_files opts of None \<Rightarrow> [] | Some fs \<Rightarrow> fs),
             depth = 0, home = False, path = None, url = None, stats = None,
             summary = None, previews = None\<rparr>
            (case opts_albums opts of None \<Rightarrow> [] | Some as \<Rightarrow> as),
          counter'))"

definition resetIds :: "nat \<Rightarrow> nat" where
  "resetIds counter = 0"

subsection \<open>calculateStats (lines 81 to 101)\<close>

text \<open>
  \<^verbatim>\<open>_.map(this.albums, 'stats.photos')\<close> gives \<^verbatim>\<open>undefined\<close> for a child whose
  \<^verbatim>\<open>stats\<close> is \<^verbatim>\<open>null\<close>. Counts are natural numbers.
\<close>

definition or_zero :: "nat \<Rightarrow> nat" where
  "or_zero n = (if n = 0 then 0 else n)"

definition calculateStats :: "album \<Rightarrow> album" where
  "calculateStats this =
     (let nestedPhotos = map (\<lambda>a. map_option photos (stats (node a))) (albums this);
          nestedVideos = map (\<lambda>a. map_option videos (stats (node a))) (albums this);
          nestedFromDates = map (\<lambda>a. Option.bind (stats (node a)) fromDate) (albums this);
          nestedToDates = map (\<lambda>a. Option.bind (stats (node a)) toDate) (albums this);
          currentPhotos = length (filter (\<lambda>f. type f = ''image'') (files (node this)));
          currentVideos = length (filter (\<lambda>f. type f = ''video'') (files (node this)));
          currentFromDate = map date (files (node this));
          currentToDate = map date (files (node this));
          st = \<lparr>album_stats.albums = length (albums this),
                photos = or_zero (sum_list (compact (nestedPhotos @ [Some currentPhotos]))),
                videos = or_zero (sum_list (compact (nestedVideos @ [Some currentVideos]))),
                fromDate = js_min (compact (nestedFromDates @ currentFromDate)),
                toDate = js_max (compact (nestedToDates @ currentToDate)),
                total = 0\<rparr>
      in Album ((node this)\<lparr>stats := Some (st\<lparr>total := photos st + videos st\<rparr>)\<rparr>) (albums this))"

subsection \<open>calculateSummary (lines 103 to 110) and itemCount (lines 161 to 165)\<close>

definition itemCount :: "nat \<Rightarrow> string \<Rightarrow> string" where
  "itemCount cnt ty =
     (if cnt = 0 then []
      else (let plural = (if cnt > 1 then ''s'' else [])
            in num_to_string cnt @ '' '' @ ty @ plural))"

definition calculateSummary :: "album \<Rightarrow> error + album" where
  "calculateSummary this =
     (case stats (node this) of
        None \<Rightarrow> Inl TypeError
      | Some st \<Rightarrow>
          (let items = [itemCount (album_stats.albums st) ''album'',
                        itemCount (photos st) ''photo'',
                        itemCount (videos st) ''video'']
           in Inr (Album ((node this)\<lparr>summary := Some (join '', '' (compact_strings items))\<rparr>)
                     (albums this))))"

subsection \<open>sort (lines 112 to 119)\<close>

text \<open>
  \<^verbatim>\<open>a.title.match(/^[\d-]+$/)\<close> is truthy when the whole title is one or more digits
  and hyphens.
\<close>

fun numbers_match :: "string \<Rightarrow> bool" where
  "numbers_match [] = False"
| "numbers_match [c] = (is_digit c \<or> c = CHR ''-'')"
| "numbers_match (c # d # s) = ((is_digit c \<or> c = CHR ''-'') \<and> numbers_match (d # s))"

definition sort_album :: "options \<Rightarrow> album \<Rightarrow> error + album" where
  "sort_album options this =
     (case orderBy (files (node this)) (lookup SORT_MEDIA_BY (sortMediaBy options))
             (sortMediaDirection options) of
        Inl e \<Rightarrow> Inl e
      | Inr files' \<Rightarrow>
          (case orderBy (albums this) (lookup SORT_ALBUMS_BY (sortAlbumsBy options))
                  (sortAlbumsDirection options) of
             Inl e \<Rightarrow> Inl e
           | Inr albums' \<Rightarrow>
               Inr (Album ((node this)\<lparr>files := files'\<rparr>)
                      (if sortAlmbumsNumbersFirst options then
                         (let parts = partition_js albums' (\<lambda>a. numbers_match (title (node a)))
                          in fst parts @ snd parts)
                       else albums'))))"

subsection \<open>pickPreviews (lines 121 to 134)\<close>

text \<open>
  \<^verbatim>\<open>_.flatten(_.map(this.albums, 'previews'))\<close>: the entries of each child's array,
  and the \<^verbatim>\<open>null\<close> itself for a child without one.
\<close>

fun flatten_previews :: "preview list option list \<Rightarrow> preview list" where
  "flatten_previews [] = []"
| "flatten_previews (None # vs) = Null # flatten_previews vs"
| "flatten_previews (Some ps # vs) = ps @ flatten_previews vs"

text \<open>The loop that pushes the placeholder \<^verbatim>\<open>missing\<close> times.\<close>

fun fill_gap :: "nat \<Rightarrow> preview list \<Rightarrow> preview list" where
  "fill_gap 0 ps = ps"
| "fill_gap (Suc k) ps = fill_gap k (ps @ [PREVIEW_MISSING])"

definition pickPreviews :: "album \<Rightarrow> album" where
  "pickPreviews this =
     (let nestedPicks = filter (\<lambda>file. file \<noteq> PREVIEW_MISSING)
                          (flatten_previews (map (\<lambda>a. previews (node a)) (albums this)));
          potentialPicks = map File (files (node this)) @ nestedPicks;
          picked = take PREVIEW_COUNT potentialPicks;
          missing = PREVIEW_COUNT - length picked
      in Album ((node this)\<lparr>previews := Some (fill_gap missing picked)\<rparr>) (albums this))"

subsection \<open>finalize (lines 47 to 79)\<close>

text \<open>
  Lines 49 to 67: the title, then the path, the URL and the depth, from the parent's
  depth and base name.
\<close>

definition finalize_paths :: "runtime \<Rightarrow> options \<Rightarrow> album option \<Rightarrow> album_node \<Rightarrow> album_node" where
  "finalize_paths rt options parent this0 =
     (let albumsOutputFolder = or_default (albumsOutputFolder options) ''.'';
          this = (if titleizeAlbumNames options then this0\<lparr>title := titleize (title this0)\<rparr>
                  else this0)
      in case parent of
           None \<Rightarrow>
             this\<lparr>path := Some (or_default (index options) ''index.html''),
                  url := Some (or_default (index options) ''index.html''),
                  depth := 0\<rparr>
         | Some p \<Rightarrow>
             (let this1 = (if depth (node p) > 0
                           then this\<lparr>basename := basename (node p) @ ''-'' @ basename this\<rparr>
                           else this)
              in this1\<lparr>path := Some (path_join rt albumsOutputFolder (basename this1 @ ''.html'')),
                       url := Some (url_resolve rt (albumsOutputFolder @ ''/'')
                                      (basename this1 @ ''.html'')),
                       depth := depth (node p) + 1\<rparr>))"

text \<open>Lines 74 to 78, once the nested albums are finalized.\<close>

definition finalize_calculations :: "options \<Rightarrow> album \<Rightarrow> error + album" where
  "finalize_calculations options this0 =
     (let this = Album ((node this0)\<lparr>home := (depth (node this0) = 0)\<rparr>) (albums this0)
      in case calculateSummary (calculateStats this) of
           Inl e \<Rightarrow> Inl e
         | Inr this1 \<Rightarrow>
             (case sort_album options this1 of
                Inl e \<Rightarrow> Inl e
              | Inr this2 \<Rightarrow> Inr (pickPreviews this2)))"

text \<open>
  The method itself, with the loop over the nested albums (lines 69 to 71): each child
  is finalized with the options of its parent and the parent itself, of which it reads
  the depth and the base name.
\<close>

fun finalize :: "runtime \<Rightarrow> options option \<Rightarrow> album option \<Rightarrow> album \<Rightarrow> error + album"
  and finalize_albums :: "runtime \<Rightarrow> options \<Rightarrow> album \<Rightarrow> album list \<Rightarrow> error + album list" where
  "finalize rt options0 parent (Album n as) =
     (let options = (case options0 of None \<Rightarrow> empty_options | Some given \<Rightarrow> given);
          this = Album (finalize_paths rt options parent n) as
      in case finalize_albums rt options this as of
           Inl e \<Rightarrow> Inl e
         | Inr as' \<Rightarrow> finalize_calculations options (Album (node this) as'))"
| "finalize_albums rt options this [] = Inr []"
| "finalize_albums rt options this (a # as) =
     (case finalize rt (Some options) (Some this) a of
        Inl e \<Rightarrow> Inl e
      | Inr a' \<Rightarrow>
          (case finalize_albums rt options this as of
             Inl e \<Rightarrow> Inl e
           | Inr as' \<Rightarrow> Inr (a' # as')))"

section \<open>Properties of a finalized tree\<close>

text \<open>A property of every node of a tree: of the album and of all its descendants.\<close>

fun all_nodes :: "(album \<Rightarrow> bool) \<Rightarrow> album \<Rightarrow> bool" where
  "all_nodes P (Album n as) = (P (Album n as) \<and> (\<forall>a\<in>set as. all_nodes P a))"

text \<open>The counts a child album brings to its parent.\<close>

definition photos_of :: "album \<Rightarrow> nat" where
  "photos_of a = (case stats (node a) of None \<Rightarrow> 0 | Some st \<Rightarrow> photos st)"

definition videos_of :: "album \<Rightarrow> nat" where
  "videos_of a = (case stats (node a) of None \<Rightarrow> 0 | Some st \<Rightarrow> videos st)"











text \<open>A title that the pattern \<^verbatim>\<open>^[0-9-]+$\<close> matches as a whole.\<close>

definition numeric_title :: "album \<Rightarrow> bool" where
  "numeric_title a =
     (title (node a) \<noteq> [] \<and> list_all (\<lambda>c. c \<in> set ''0123456789-'') (title (node a)))"



text \<open>The characters of a base name: ASCII letters, digits, hyphen and underscore.\<close>

definition slug_char :: "char \<Rightarrow> bool" where
  "slug_char c =
     (c \<in> set (''abcdefghijklmnopqrstuvwxyz'' @ ''ABCDEFGHIJKLMNOPQRSTUVWXYZ''
               @ ''0123456789'' @ ''-_''))"

definition slug_basename :: "album \<Rightarrow> bool" where
  "slug_basename a = list_all slug_char (basename (node a))"

text \<open>The base name is the one the constructor gave: the sanitised title.\<close>

definition constructed_basename :: "album \<Rightarrow> bool" where
  "constructed_basename a = (basename (node a) = sanitise (title (node a)))"

text \<open>
  The title after finalize: rewritten by \<^verbatim>\<open>titleize\<close> when
  \<^verbatim>\<open>options.titleizeAlbumNames\<close> is set, unchanged otherwise.
\<close>

definition finalized_title :: "options option \<Rightarrow> string \<Rightarrow> string" where
  "finalized_title options t =
     (case options of
        None \<Rightarrow> t
      | Some given \<Rightarrow> if titleizeAlbumNames given then titleize t else t)"

text \<open>
  The albums of the two levels below a root have the base name the constructor gave.
\<close>

definition constructed_below :: "album \<Rightarrow> bool" where
  "constructed_below root =
     list_all (\<lambda>A. constructed_basename A \<and> list_all constructed_basename (albums A))
       (albums root)"

section \<open>Examples\<close>

text \<open>A runtime whose \<^verbatim>\<open>path.join\<close> and \<^verbatim>\<open>url.resolve\<close> concatenate.\<close>

definition ex_runtime :: runtime where
  "ex_runtime = \<lparr>path_join = (\<lambda>a b. a @ ''/'' @ b), url_resolve = (\<lambda>a b. a @ b)\<rparr>"

definition ex_image :: "string \<Rightarrow> int \<Rightarrow> media" where
  "ex_image name d = \<lparr>type = ''image'', filename = name, date = Some d\<rparr>"

definition ex_video :: "string \<Rightarrow> int \<Rightarrow> media" where
  "ex_video name d = \<lparr>type = ''video'', filename = name, date = Some d\<rparr>"

text \<open>An album as the constructor builds it from a title, files and nested albums.\<close>

definition ex_album :: "nat \<Rightarrow> string \<Rightarrow> media list \<Rightarrow> album list \<Rightarrow> album" where
  "ex_album i t fs as = fst (new_Album (Opts (Some i) (Some t) (Some fs) (Some as)) 0)"

text \<open>
  A root with two albums: one of two photos and a video that nests an album of one
  photo, and one of one photo.
\<close>

definition ex_root :: album where
  "ex_root =
     ex_album 1 ''root'' []
       [ex_album 2 ''Vacation2023''
          [ex_image ''a.jpg'' 1, ex_image ''b.jpg'' 2, ex_video ''c.mp4'' 2]
          [ex_album 3 ''day_one'' [ex_image ''e.jpg'' 5] []],
        ex_album 4 ''2024'' [ex_image ''d.jpg'' 3] []]"

definition ex_options :: options where
  "ex_options = empty_options\<lparr>sortAlbumsBy := Some ''start-date'', sortAlbumsDirection := Some ''asc''\<rparr>"

definition ex_day_one_finalized :: album where
  "ex_day_one_finalized =
     Album
       \<lparr>ident = 3, title = ''day_one'', basename = ''Vacation2023-day_one'',
        files = [ex_image ''e.jpg'' 5], depth = 2, home = False,
        path = Some ''./Vacation2023-day_one.html'',
        url = Some ''./Vacation2023-day_one.html'',
        stats = Some \<lparr>album_stats.albums = 0, photos = 1, videos = 0,
                      fromDate = Some 5, toDate = Some 5, total = 1\<rparr>,
        summary = Some ''1 photo'',
        previews = Some (File (ex_image ''e.jpg'' 5) # replicate 9 PREVIEW_MISSING)\<rparr>
       []"

definition ex_vacation_finalized :: album where
  "ex_vacation_finalized =
     Album
       \<lparr>ident = 2, title = ''Vacation2023'', basename = ''Vacation2023'',
        files = [ex_image ''a.jpg'' 1, ex_image ''b.jpg'' 2, ex_video ''c.mp4'' 2],
        depth = 1, home = False,
        path = Some ''./Vacation2023.html'', url = Some ''./Vacation2023.html'',
        stats = Some \<lparr>album_stats.albums = 1, photos = 3, videos = 1,
                      fromDate = Some 1, toDate = Some 5, total = 4\<rparr>,
        summary = Some ''1 album, 3 photos, 1 video'',
        previews = Some ([File (ex_image ''a.jpg'' 1), File (ex_image ''b.jpg'' 2),
                          File (ex_video ''c.mp4'' 2), File (ex_image ''e.jpg'' 5)]
                         @ replicate 6 PREVIEW_MISSING)\<rparr>
       [ex_day_one_finalized]"

definition ex_2024_finalized :: album where
  "ex_2024_finalized =
     Album
       \<lparr>ident = 4, title = ''2024'', basename = ''2024'', files = [ex_image ''d.jpg'' 3],
        depth = 1, home = False, path = Some ''./2024.html'', url = Some ''./2024.html'',
        stats = Some \<lparr>album_stats.albums = 0, photos = 1, videos = 0,
                      fromDate = Some 3, toDate = Some 3, total = 1\<rparr>,
        summary = Some ''1 photo'',
        previews = Some (File (ex_image ''d.jpg'' 3) # replicate 9 PREVIEW_MISSING)\<rparr>
       []"

definition ex_root_finalized :: album where
  "ex_root_finalized =
     Album
       \<lparr>ident = 1, title = ''root'', basename = ''root'', files = [], depth = 0, home = True,
        path = Some ''index.html'', url = Some ''index.html'',
        stats = Some \<lparr>album_stats.albums = 2, photos = 4, videos = 1,
                      fromDate = Some 1, toDate = Some 5, total = 5\<rparr>,
        summary = Some ''2 albums, 4 photos, 1 video'',
        previews = Some ([File (ex_image ''a.jpg'' 1), File (ex_image ''b.jpg'' 2),
                          File (ex_video ''c.mp4'' 2), File (ex_image ''e.jpg'' 5),
                          File (ex_image ''d.jpg'' 3)] @ replicate 5 PREVIEW_MISSING)\<rparr>
       [ex_vacation_finalized, ex_2024_finalized]"



text \<open>
  One album alone, and options whose \<^verbatim>\<open>index\<close> is the empty string and a file
  name.
\<close>

definition ex_solo :: album where
  "ex_solo = ex_album 1 ''My Album'' [] []"



definition ex_solo_finalized :: album where
  "ex_solo_finalized =
     Album
       \<lparr>ident = 1, title = ''My Album'', basename = ''MyAlbum'', files = [], depth = 0,
        home = True, path = Some ''index.html'', url = Some ''index.html'',
        stats = Some \<lparr>album_stats.albums = 0, photos = 0, videos = 0,
                      fromDate = None, toDate = None, total = 0\<rparr>,
        summary = Some [],
        previews = Some (replicate 10 PREVIEW_MISSING)\<rparr>
       []"

text \<open>
  A chain of three albums, root, \<^verbatim>\<open>a\<close> and \<^verbatim>\<open>b\<close>, finalized with
  \<^verbatim>\<open>titleizeAlbumNames\<close>.
\<close>

definition ex_chain :: album where
  "ex_chain = ex_album 1 ''root'' [] [ex_album 2 ''a'' [] [ex_album 3 ''b'' [] []]]"

definition ex_titleize :: options where
  "ex_titleize = empty_options\<lparr>titleizeAlbumNames := True\<rparr>"

definition ex_chain_B :: album where
  "ex_chain_B =
     Album
       \<lparr>ident = 3, title = ''B'', basename = ''a-b'', files = [], depth = 2, home = False,
        path = Some ''./a-b.html'', url = Some ''./a-b.html'',
        stats = Some \<lparr>album_stats.albums = 0, photos = 0, videos = 0,
                      fromDate = None, toDate = None, total = 0\<rparr>,
        summary = Some [],
        previews = Some (replicate 10 PREVIEW_MISSING)\<rparr>
       []"

definition ex_chain_A :: album where
  "ex_chain_A =
     Album
       \<lparr>ident = 2, title = ''A'', basename = ''a'', files = [], depth = 1, home = False,
        path = Some ''./a.html'', url = Some ''./a.html'',
        stats = Some \<lparr>album_stats.albums = 1, photos = 0, videos = 0,
                      fromDate = None, toDate = None, total = 0\<rparr>,
        summary = Some ''1 album'',
        previews = Some (replicate 10 PREVIEW_MISSING)\<rparr>
       [ex_chain_B]"

definition ex_chain_finalized :: album where
  "ex_chain_finalized =
     Album
       \<lparr>ident = 1, title = ''Root'', basename = ''root'', files = [], depth = 0, home = True,
        path = Some ''index.html'', url = Some ''index.html'',
        stats = Some \<lparr>album_stats.albums = 1, photos = 0, videos = 0,
                      fromDate = None, toDate = None, total = 0\<rparr>,
        summary = Some ''1 album'',
        previews = Some (replicate 10 PREVIEW_MISSING)\<rparr>
       [ex_chain_A]"

text \<open>The albums titled Zebra, 2023 and Apple, sorted by title, numbers first.\<close>

definition ex_shelf :: album where
  "ex_shelf =
     ex_album 1 ''shelf'' []
       [ex_album 2 ''Zebra'' [] [], ex_album 3 ''2023'' [] [], ex_album 4 ''Apple'' [] []]"

definition ex_numbers_first :: options where
  "ex_numbers_first =
     empty_options\<lparr>sortAlbumsBy := Some ''title'', sortAlbumsDirection := Some ''asc'',
                    sortAlmbumsNumbersFirst := True\<rparr>"

definition ex_shelf_sorted :: album where
  "ex_shelf_sorted =
     ex_album 1 ''shelf'' []
       [ex_album 3 ''2023'' [] [], ex_album 4 ''Apple'' [] [], ex_album 2 ''Zebra'' [] []]"

section \<open>Lemmas on sorting and on the steps of finalize\<close>

text \<open>Sorting and partitioning reorder a collection and nothing else.\<close>

lemma mset_insert_sorted: "mset (insert_sorted comparer x ys) = add_mset x (mset ys)"
  by (induction ys) auto

lemma mset_array_sort: "mset (array_sort comparer xs) = mset xs"
  unfolding array_sort_def by (induction xs) (auto simp: mset_insert_sorted)

lemma criteria_values:
  "criteria iteratee i xs = Inr r \<Longrightarrow> map (\<lambda>object. snd (snd object)) r = xs"
  by (induction xs arbitrary: i r) (auto split: sum.splits)

lemma orderBy_mset: "orderBy xs iteratee orders = Inr ys \<Longrightarrow> mset ys = mset xs"
proof -
  assume a: "orderBy xs iteratee orders = Inr ys"
  show ?thesis
  proof (cases iteratee)
    case None
    with a show ?thesis by (simp add: orderBy_def)
  next
    case (Some f)
    with a obtain r where r: "criteria f 0 xs = Inr r"
      and ys: "ys = map (\<lambda>object. snd (snd object))
                      (array_sort (\<lambda>object other. compareMultiple object other orders) r)"
      by (auto simp: orderBy_def split: sum.splits)
    have "mset ys = mset (map (\<lambda>object. snd (snd object)) r)"
      unfolding ys by (simp add: mset_array_sort)
    also have "\<dots> = mset xs" using criteria_values [OF r] by simp
    finally show ?thesis .
  qed
qed

lemma partition_loop_filter:
  "partition_loop P xs parts = (fst parts @ filter P xs, snd parts @ filter (\<lambda>x. \<not> P x) xs)"
  by (induction xs arbitrary: parts) auto

lemma partition_js_filter:
  "partition_js xs P = (filter P xs, filter (\<lambda>x. \<not> P x) xs)"
  by (simp add: partition_js_def partition_loop_filter)

lemma mset_partition_concat: "mset (fst (partition_js xs P) @ snd (partition_js xs P)) = mset xs"
  by (simp add: partition_js_filter)

lemma sort_album_frame:
  assumes "sort_album options this = Inr this'"
  shows "\<exists>fs. node this' = (node this)\<lparr>files := fs\<rparr> \<and> mset fs = mset (files (node this))"
    and "mset (albums this') = mset (albums this)"
  using assms
  by (auto simp: sort_album_def Let_def mset_partition_concat partition_js_filter
           split: sum.splits if_splits dest: orderBy_mset)

lemma calculateSummary_frame:
  assumes "calculateSummary this = Inr this'"
  shows "node this' = (node this)\<lparr>summary := summary (node this')\<rparr>" and "albums this' = albums this"
  using assms by (auto simp: calculateSummary_def Let_def split: option.splits)

lemma calculateStats_frame:
  "node (calculateStats this) = (node this)\<lparr>stats := stats (node (calculateStats this))\<rparr>"
  "albums (calculateStats this) = albums this"
  by (simp_all add: calculateStats_def Let_def)

lemma pickPreviews_frame:
  "node (pickPreviews this) = (node this)\<lparr>previews := previews (node (pickPreviews this))\<rparr>"
  "albums (pickPreviews this) = albums this"
  by (simp_all add: pickPreviews_def Let_def)

lemma finalize_calculations_steps:
  assumes "finalize_calculations options this0 = Inr x"
  obtains this1 this2 where
    "calculateSummary (calculateStats (Album ((node this0)\<lparr>home := (depth (node this0) = 0)\<rparr>) (albums this0))) = Inr this1"
    "sort_album options this1 = Inr this2"
    "x = pickPreviews this2"
  using assms by (auto simp: finalize_calculations_def Let_def split: sum.splits)

lemma calculateStats_home:
  "stats (node (calculateStats (Album (n\<lparr>home := h\<rparr>) as))) = stats (node (calculateStats (Album n as)))"
  by (simp add: calculateStats_def Let_def)

lemma finalize_calculations_albums:
  assumes "finalize_calculations options this0 = Inr x"
  shows "mset (albums x) = mset (albums this0)"
proof -
  from assms obtain this1 this2 where
    1: "calculateSummary (calculateStats (Album ((node this0)\<lparr>home := (depth (node this0) = 0)\<rparr>) (albums this0))) = Inr this1"
    and 2: "sort_album options this1 = Inr this2" and 3: "x = pickPreviews this2"
    by (rule finalize_calculations_steps)
  show ?thesis
    using calculateSummary_frame(2) [OF 1] sort_album_frame(2) [OF 2] 3
    by (simp add: pickPreviews_frame(2) calculateStats_frame(2))
qed

lemma finalize_calculations_node:
  assumes "finalize_calculations options this0 = Inr x"
  shows "\<exists>fs. mset fs = mset (files (node this0)) \<and>
           node x = (node this0)
             \<lparr>home := (depth (node this0) = 0),
              stats := stats (node (calculateStats this0)),
              summary := summary (node x), files := fs, previews := previews (node x)\<rparr>"
proof -
  define this where "this = Album ((node this0)\<lparr>home := (depth (node this0) = 0)\<rparr>) (albums this0)"
  from assms obtain this1 this2 where
    1: "calculateSummary (calculateStats this) = Inr this1"
    and 2: "sort_album options this1 = Inr this2" and 3: "x = pickPreviews this2"
    unfolding this_def by (rule finalize_calculations_steps)
  from sort_album_frame(1) [OF 2] obtain fs where
    fs: "node this2 = (node this1)\<lparr>files := fs\<rparr>" "mset fs = mset (files (node this1))" by blast
  have st: "stats (node (calculateStats this)) = stats (node (calculateStats this0))"
    unfolding this_def using calculateStats_home [where n = "node this0" and as = "albums this0"] by simp
  have n1: "node this1 = (node this)\<lparr>stats := stats (node (calculateStats this0)),
                                     summary := summary (node this1)\<rparr>"
    using calculateSummary_frame(1) [OF 1] calculateStats_frame(1) [of this] st by simp
  have nx: "node x = (node this2)\<lparr>previews := previews (node x)\<rparr>"
    using pickPreviews_frame(1) [of this2] 3 by simp
  have f1: "files (node this1) = files (node this0)"
    using arg_cong [OF n1, of files] by (simp add: this_def)
  have "node x = (node this0)
             \<lparr>home := (depth (node this0) = 0),
              stats := stats (node (calculateStats this0)),
              summary := summary (node x), files := fs, previews := previews (node x)\<rparr>"
    using arg_cong [OF nx, of summary] nx fs(1) n1 by (simp add: this_def)
  with fs(2) f1 show ?thesis by auto
qed

lemma finalize_calculations_kept:
  assumes "finalize_calculations options this0 = Inr x"
  shows "title (node x) = title (node this0)" "basename (node x) = basename (node this0)"
    "depth (node x) = depth (node this0)" "path (node x) = path (node this0)"
    "url (node x) = url (node this0)" "ident (node x) = ident (node this0)"
    "home (node x) = (depth (node this0) = 0)"
    "stats (node x) = stats (node (calculateStats this0))"
    "mset (files (node x)) = mset (files (node this0))"
proof -
  from finalize_calculations_node [OF assms] obtain fs where
    fs: "mset fs = mset (files (node this0))"
    and nx: "node x = (node this0)
             \<lparr>home := (depth (node this0) = 0),
              stats := stats (node (calculateStats this0)),
              summary := summary (node x), files := fs, previews := previews (node x)\<rparr>"
    by blast
  show "title (node x) = title (node this0)" using arg_cong [OF nx, of title] by simp
  show "basename (node x) = basename (node this0)" using arg_cong [OF nx, of basename] by simp
  show "depth (node x) = depth (node this0)" using arg_cong [OF nx, of depth] by simp
  show "path (node x) = path (node this0)" using arg_cong [OF nx, of path] by simp
  show "url (node x) = url (node this0)" using arg_cong [OF nx, of url] by simp
  show "ident (node x) = ident (node this0)" using arg_cong [OF nx, of ident] by simp
  show "home (node x) = (depth (node this0) = 0)" using arg_cong [OF nx, of home] by simp
  show "stats (node x) = stats (node (calculateStats this0))" using arg_cong [OF nx, of stats] by simp
  show "mset (files (node x)) = mset (files (node this0))" using arg_cong [OF nx, of files] fs by simp
qed



lemma all_nodes_children: "all_nodes P a = (P a \<and> (\<forall>c\<in>set (albums a). all_nodes P c))"
  by (cases a) simp



subsection \<open>finalize never throws\<close>

lemma calculateStats_defined: "\<exists>st. stats (node (calculateStats this)) = Some st"
  by (simp add: calculateStats_def Let_def)

lemma criteria_total:
  "\<forall>x\<in>set xs. \<exists>c. iteratee x = Inr c \<Longrightarrow> \<exists>r. criteria iteratee i xs = Inr r"
proof (induction xs arbitrary: i)
  case Nil
  show ?case by simp
next
  case (Cons x xs)
  from Cons.prems obtain c where c: "iteratee x = Inr c" by auto
  from Cons.IH [of "Suc i"] Cons.prems obtain r where "criteria iteratee (Suc i) xs = Inr r" by auto
  with c show ?case by simp
qed

lemma orderBy_total:
  assumes "\<And>f. iteratee = Some f \<Longrightarrow> \<forall>x\<in>set xs. \<exists>c. f x = Inr c"
  shows "\<exists>ys. orderBy xs iteratee orders = Inr ys"
proof (cases iteratee)
  case None
  then show ?thesis by (simp add: orderBy_def)
next
  case (Some f)
  from criteria_total [OF assms [OF Some], of 0] obtain r where "criteria f 0 xs = Inr r" ..
  with Some show ?thesis by (simp add: orderBy_def)
qed

lemma media_iteratee_total:
  "lookup SORT_MEDIA_BY key = Some f \<Longrightarrow> \<exists>c. f x = Inr c"
  by (auto simp: lookup_def SORT_MEDIA_BY_def split: option.splits if_splits)

lemma album_iteratee_total:
  "lookup SORT_ALBUMS_BY key = Some f \<Longrightarrow> stats (node x) \<noteq> None \<Longrightarrow> \<exists>c. f x = Inr c"
  by (auto simp: lookup_def SORT_ALBUMS_BY_def split: option.splits if_splits)

lemma sort_album_total:
  assumes "\<forall>c\<in>set (albums this). stats (node c) \<noteq> None"
  shows "\<exists>this'. sort_album options this = Inr this'"
proof -
  obtain fs where fs: "orderBy (files (node this)) (lookup SORT_MEDIA_BY (sortMediaBy options))
             (sortMediaDirection options) = Inr fs"
    using orderBy_total [of "lookup SORT_MEDIA_BY (sortMediaBy options)" "files (node this)"]
      media_iteratee_total by blast
  obtain as where as: "orderBy (albums this) (lookup SORT_ALBUMS_BY (sortAlbumsBy options))
                  (sortAlbumsDirection options) = Inr as"
    using orderBy_total [of "lookup SORT_ALBUMS_BY (sortAlbumsBy options)" "albums this"]
      album_iteratee_total assms by blast
  show ?thesis by (simp add: sort_album_def fs as)
qed

lemma calculateSummary_total:
  "\<exists>this'. calculateSummary (calculateStats this) = Inr this'"
  using calculateStats_defined [of this] by (auto simp: calculateSummary_def Let_def)

lemma finalize_calculations_total:
  assumes "\<forall>c\<in>set (albums this0). stats (node c) \<noteq> None"
  shows "\<exists>x. finalize_calculations options this0 = Inr x"
proof -
  let ?this = "Album ((node this0)\<lparr>home := (depth (node this0) = 0)\<rparr>) (albums this0)"
  obtain this1 where 1: "calculateSummary (calculateStats ?this) = Inr this1"
    using calculateSummary_total by blast
  have "albums this1 = albums this0"
    using calculateSummary_frame(2) [OF 1] by (simp add: calculateStats_frame(2))
  with assms obtain this2 where "sort_album options this1 = Inr this2"
    using sort_album_total [of this1 options] by auto
  with 1 show ?thesis by (simp add: finalize_calculations_def Let_def)
qed

lemma finalize_calculations_stats_defined:
  "finalize_calculations options this0 = Inr x \<Longrightarrow> stats (node x) \<noteq> None"
  using finalize_calculations_kept(8) [of options this0 x] calculateStats_defined [of this0] by auto

lemma finalize_stats_defined:
  assumes "finalize rt options0 parent a = Inr a'"
  shows "stats (node a') \<noteq> None"
proof (cases a)
  case (Album n as)
  with assms show ?thesis
    by (auto simp: Let_def split: sum.splits dest: finalize_calculations_stats_defined)
qed

text \<open>finalize never throws.\<close>

lemma finalize_total_aux:
  "\<exists>a'. finalize rt options0 parent a = Inr a'"
  "\<exists>as'. finalize_albums rt options this as = Inr as'"
proof (induction rt options0 parent a and rt options this as rule: finalize_finalize_albums.induct)
  case (1 rt options0 parent n as)
  define options where "options = (case options0 of None \<Rightarrow> empty_options | Some given \<Rightarrow> given)"
  define this where "this = Album (finalize_paths rt options parent n) as"
  from "1.IH" [OF options_def this_def] obtain as' where
    loop: "finalize_albums rt options this as = Inr as'" by blast
  have "\<forall>c\<in>set as'. stats (node c) \<noteq> None"
    using loop
  proof (induction as arbitrary: as')
    case Nil
    then show ?case by simp
  next
    case (Cons c cs)
    then show ?case by (auto split: sum.splits dest: finalize_stats_defined)
  qed
  then obtain x where "finalize_calculations options (Album (node this) as') = Inr x"
    using finalize_calculations_total [of "Album (node this) as'" options] by auto
  with loop show ?case by (simp add: Let_def flip: options_def this_def)
next
  case (2 rt options this)
  show ?case by simp
next
  case (3 rt options this a as)
  then show ?case by (auto split: sum.splits)
qed

lemma finalize_total: "\<exists>a'. finalize rt options0 parent a = Inr a'"
  by (rule finalize_total_aux(1))


section \<open>The claims\<close>


text \<open>The finalization of the examples, by evaluation.\<close>

lemma ex_root_finalize:
  "finalize ex_runtime (Some ex_options) None ex_root = Inr ex_root_finalized"
  by code_simp


subsection \<open>Stats additivity\<close>

lemma or_zero_id: "or_zero n = n"
  by (simp add: or_zero_def)

lemma sum_compact_photos:
  "sum_list (compact (map (\<lambda>a. map_option photos (stats (node a))) as @ [Some c]))
     = sum_list (map photos_of as) + c"
  by (induction as) (auto simp: photos_of_def split: option.splits)

lemma sum_compact_videos:
  "sum_list (compact (map (\<lambda>a. map_option videos (stats (node a))) as @ [Some c]))
     = sum_list (map videos_of as) + c"
  by (induction as) (auto simp: videos_of_def split: option.splits)

lemma calculateStats_stats:
  "stats (node (calculateStats this)) =
     Some \<lparr>album_stats.albums = length (albums this),
           photos = sum_list (map photos_of (albums this))
                      + length (filter (\<lambda>f. type f = ''image'') (files (node this))),
           videos = sum_list (map videos_of (albums this))
                      + length (filter (\<lambda>f. type f = ''video'') (files (node this))),
           fromDate = js_min (compact (map (\<lambda>a. Option.bind (stats (node a)) fromDate) (albums this)
                                       @ map date (files (node this)))),
           toDate = js_max (compact (map (\<lambda>a. Option.bind (stats (node a)) toDate) (albums this)
                                       @ map date (files (node this)))),
           total = sum_list (map photos_of (albums this))
                      + length (filter (\<lambda>f. type f = ''image'') (files (node this)))
                   + (sum_list (map videos_of (albums this))
                      + length (filter (\<lambda>f. type f = ''video'') (files (node this))))\<rparr>"
  unfolding calculateStats_def Let_def or_zero_id sum_compact_photos sum_compact_videos
  by simp







subsection \<open>Preview count\<close>










subsection \<open>Placeholders\<close>






subsection \<open>Date range\<close>














subsection \<open>Summary\<close>







subsection \<open>Root identity\<close>


lemma ex_solo_finalize:
  "finalize ex_runtime None None ex_solo = Inr ex_solo_finalized"
  by code_simp




subsection \<open>Empty input\<close>

text \<open>
  C9. Finalizing an album whose files and albums are both empty does not fail; its stats
  are then 0 albums, 0 photos, 0 videos, total 0, and \<^verbatim>\<open>fromDate\<close> and \<^verbatim>\<open>toDate\<close>
  undefined.
\<close>

theorem empty_album_stats:
  assumes "files (node a) = []" and "albums a = []"
  shows "\<exists>a'. finalize rt options parent a = Inr a' \<and>
           stats (node a') = Some \<lparr>album_stats.albums = 0, photos = 0, videos = 0,
                                   fromDate = None, toDate = None, total = 0\<rparr>"
proof -
  obtain a' where fin: "finalize rt options parent a = Inr a'"
    using finalize_total by blast
  obtain n where a: "a = Album n []" using assms(2) by (cases a) simp
  define opts where "opts = (case options of None \<Rightarrow> empty_options | Some given \<Rightarrow> given)"
  from fin a have calc: "finalize_calculations opts (Album (finalize_paths rt opts parent n) []) = Inr a'"
    by (simp add: Let_def opts_def)
  have "files (finalize_paths rt opts parent n) = []"
    using assms(1) a by (simp add: finalize_paths_def Let_def split: option.splits)
  then have "stats (node (calculateStats (Album (finalize_paths rt opts parent n) []))) =
          Some \<lparr>album_stats.albums = 0, photos = 0, videos = 0,
                                   fromDate = None, toDate = None, total = 0\<rparr>"
    by (simp add: calculateStats_stats js_min_def js_max_def)
  with finalize_calculations_kept(8) [OF calc] fin show ?thesis by simp
qed

theorem empty_album_stats_witness:
  "files (node ex_solo) = [] \<and> albums ex_solo = [] \<and>
   finalize ex_runtime None None ex_solo = Inr ex_solo_finalized \<and>
   stats (node ex_solo_finalized) = Some \<lparr>album_stats.albums = 0, photos = 0, videos = 0,
                                           fromDate = None, toDate = None, total = 0\<rparr>"
proof -
  have 1: "files (node ex_solo) = []" by code_simp
  have 2: "albums ex_solo = []" by code_simp
  from empty_album_stats [OF 1 2, of ex_runtime None None] obtain a' where
    a': "finalize ex_runtime None None ex_solo = Inr a'"
    and st: "stats (node a') = Some \<lparr>album_stats.albums = 0, photos = 0, videos = 0,
                                      fromDate = None, toDate = None, total = 0\<rparr>"
    by (elim exE conjE)
  from a' ex_solo_finalize have eq: "a' = ex_solo_finalized" by simp
  from 1 2 ex_solo_finalize st show ?thesis unfolding eq by (intro conjI)
qed

subsection \<open>Character classes\<close>

lemma lower_codes: "\<forall>n\<in>set [97..<123]. char_of (n::nat) \<in> set ''abcdefghijklmnopqrstuvwxyz''"
  by code_simp
lemma upper_codes: "\<forall>n\<in>set [65..<91]. char_of (n::nat) \<in> set ''ABCDEFGHIJKLMNOPQRSTUVWXYZ''"
  by code_simp
lemma digit_codes: "\<forall>n\<in>set [48..<58]. char_of (n::nat) \<in> set ''0123456789''"
  by code_simp

lemma is_lower_iff: "is_lower c \<longleftrightarrow> c \<in> set ''abcdefghijklmnopqrstuvwxyz''"
proof
  assume "is_lower c"
  then have "code c \<in> {97..<123}" by (simp add: is_lower_def in_range_def code_def)
  then have "code c \<in> set [97..<123]" by (simp only: set_upt)
  with lower_codes have "char_of (code c) \<in> set ''abcdefghijklmnopqrstuvwxyz''" by blast
  then show "c \<in> set ''abcdefghijklmnopqrstuvwxyz''" by (simp only: code_def char_of_char)
next
  assume "c \<in> set ''abcdefghijklmnopqrstuvwxyz''"
  then show "is_lower c" by (auto simp: is_lower_def in_range_def code_def)
qed

lemma is_upper_iff: "is_upper c \<longleftrightarrow> c \<in> set ''ABCDEFGHIJKLMNOPQRSTUVWXYZ''"
proof
  assume "is_upper c"
  then have "code c \<in> {65..<91}" by (simp add: is_upper_def in_range_def code_def)
  then have "code c \<in> set [65..<91]" by (simp only: set_upt)
  with upper_codes have "char_of (code c) \<in> set ''ABCDEFGHIJKLMNOPQRSTUVWXYZ''" by blast
  then show "c \<in> set ''ABCDEFGHIJKLMNOPQRSTUVWXYZ''" by (simp only: code_def char_of_char)
next
  assume "c \<in> set ''ABCDEFGHIJKLMNOPQRSTUVWXYZ''"
  then show "is_upper c" by (auto simp: is_upper_def in_range_def code_def)
qed

lemma is_digit_iff: "is_digit c \<longleftrightarrow> c \<in> set ''0123456789''"
proof
  assume "is_digit c"
  then have "code c \<in> {48..<58}" by (simp add: is_digit_def in_range_def code_def)
  then have "code c \<in> set [48..<58]" by (simp only: set_upt)
  with digit_codes have "char_of (code c) \<in> set ''0123456789''" by blast
  then show "c \<in> set ''0123456789''" by (simp only: code_def char_of_char)
next
  assume "c \<in> set ''0123456789''"
  then show "is_digit c" by (auto simp: is_digit_def in_range_def code_def)
qed

lemma sanitise_class_slug_char: "sanitise_class c = slug_char c"
  unfolding sanitise_class_def slug_char_def is_lower_iff is_upper_iff is_digit_iff
  by (simp only: set_append Un_iff) auto

lemma sanitise_filter: "sanitise s = filter slug_char s"
  by (induction s) (simp_all add: sanitise_class_slug_char)

lemma numbers_match_iff:
  "numbers_match s \<longleftrightarrow> s \<noteq> [] \<and> list_all (\<lambda>c. c \<in> set ''0123456789-'') s"
proof (induction s rule: numbers_match.induct)
  case 1
  show ?case by simp
next
  case (2 c)
  show ?case unfolding numbers_match.simps is_digit_iff by auto
next
  case (3 c d s)
  then show ?case unfolding numbers_match.simps is_digit_iff by auto
qed

subsection \<open>Base names\<close>

lemma finalize_paths_basename:
  "basename (finalize_paths rt options parent n) =
     (case parent of
        None \<Rightarrow> basename n
      | Some p \<Rightarrow> if depth (node p) > 0 then basename (node p) @ ''-'' @ basename n else basename n)"
  by (simp add: finalize_paths_def Let_def split: option.splits)

lemma finalize_paths_depth:
  "depth (finalize_paths rt options parent n) =
     (case parent of None \<Rightarrow> 0 | Some p \<Rightarrow> depth (node p) + 1)"
  by (simp add: finalize_paths_def Let_def split: option.splits)

lemma finalize_paths_title:
  "title (finalize_paths rt options parent n) =
     (if titleizeAlbumNames options then titleize (title n) else title n)"
  by (simp add: finalize_paths_def Let_def split: option.splits)

lemma finalize_paths_ident: "ident (finalize_paths rt options parent n) = ident n"
  by (simp add: finalize_paths_def Let_def split: option.splits)

text \<open>What finalize does to one album, in terms of the two halves of the method.\<close>

lemma finalize_unfold:
  assumes "finalize rt options0 parent a = Inr a'"
  obtains as' where
    "finalize_albums rt (case options0 of None \<Rightarrow> empty_options | Some given \<Rightarrow> given)
       (Album (finalize_paths rt (case options0 of None \<Rightarrow> empty_options | Some given \<Rightarrow> given)
                 parent (node a)) (albums a)) (albums a) = Inr as'"
    "finalize_calculations (case options0 of None \<Rightarrow> empty_options | Some given \<Rightarrow> given)
       (Album (finalize_paths rt (case options0 of None \<Rightarrow> empty_options | Some given \<Rightarrow> given)
                 parent (node a)) as') = Inr a'"
  using assms by (cases a) (auto simp: Let_def split: sum.splits)

lemma finalize_albums_member:
  assumes "finalize_albums rt options this as = Inr as'" and "c' \<in> set as'"
  shows "\<exists>c\<in>set as. finalize rt (Some options) (Some this) c = Inr c'"
  using assms
proof (induction as arbitrary: as')
  case Nil
  then show ?case by simp
next
  case (Cons a as)
  from Cons.prems(1) obtain a' as'' where
    a': "finalize rt (Some options) (Some this) a = Inr a'"
    and as'': "finalize_albums rt options this as = Inr as''" and eq: "as' = a' # as''"
    by (auto split: sum.splits)
  from Cons.prems(2) eq have "c' = a' \<or> c' \<in> set as''" by simp
  then show ?case
  proof
    assume "c' = a'"
    with a' show ?thesis by simp
  next
    assume "c' \<in> set as''"
    from Cons.IH [OF as'' this] show ?thesis by auto
  qed
qed

lemma finalize_child:
  assumes fin: "finalize rt options0 parent a = Inr a'" and c': "c' \<in> set (albums a')"
  shows "\<exists>c\<in>set (albums a).
           finalize rt (Some (case options0 of None \<Rightarrow> empty_options | Some given \<Rightarrow> given))
             (Some (Album (finalize_paths rt (case options0 of None \<Rightarrow> empty_options | Some given \<Rightarrow> given)
                             parent (node a)) (albums a))) c = Inr c'"
proof -
  let ?options = "case options0 of None \<Rightarrow> empty_options | Some given \<Rightarrow> given"
  let ?this = "Album (finalize_paths rt ?options parent (node a)) (albums a)"
  from fin obtain as' where loop: "finalize_albums rt ?options ?this (albums a) = Inr as'"
    and calc: "finalize_calculations ?options (Album (finalize_paths rt ?options parent (node a)) as') = Inr a'"
    by (rule finalize_unfold)
  have "set (albums a') = set as'"
    using finalize_calculations_albums [OF calc] by (auto dest: mset_eq_setD)
  with c' have "c' \<in> set as'" by simp
  from finalize_albums_member [OF loop this] show ?thesis .
qed

lemma finalize_node_kept:
  assumes fin: "finalize rt options0 parent a = Inr a'"
  shows "basename (node a') = basename (finalize_paths rt (case options0 of None \<Rightarrow> empty_options | Some given \<Rightarrow> given) parent (node a))"
    and "depth (node a') = depth (finalize_paths rt (case options0 of None \<Rightarrow> empty_options | Some given \<Rightarrow> given) parent (node a))"
    and "title (node a') = title (finalize_paths rt (case options0 of None \<Rightarrow> empty_options | Some given \<Rightarrow> given) parent (node a))"
    and "ident (node a') = ident (node a)"
proof -
  let ?options = "case options0 of None \<Rightarrow> empty_options | Some given \<Rightarrow> given"
  from fin obtain as' where
    calc: "finalize_calculations ?options (Album (finalize_paths rt ?options parent (node a)) as') = Inr a'"
    by (rule finalize_unfold)
  show "basename (node a') = basename (finalize_paths rt ?options parent (node a))"
    using finalize_calculations_kept(2) [OF calc] by simp
  show "depth (node a') = depth (finalize_paths rt ?options parent (node a))"
    using finalize_calculations_kept(3) [OF calc] by simp
  show "title (node a') = title (finalize_paths rt ?options parent (node a))"
    using finalize_calculations_kept(1) [OF calc] by simp
  show "ident (node a') = ident (node a)"
    using finalize_calculations_kept(6) [OF calc] by (simp add: finalize_paths_ident)
qed

lemma slug_sanitise: "list_all slug_char (sanitise s)"
  by (simp add: sanitise_filter list_all_iff)

lemma slug_char_hyphen: "slug_char (CHR ''-'')"
  by (simp add: slug_char_def)

lemma slug_finalize_paths:
  assumes "list_all slug_char (basename n)"
    and "case parent of None \<Rightarrow> True | Some p \<Rightarrow> slug_basename p"
  shows "list_all slug_char (basename (finalize_paths rt options parent n))"
  using assms
  by (auto simp: finalize_paths_basename slug_basename_def slug_char_hyphen split: option.splits)

lemma slug_finalize_aux:
  "(\<forall>a'. (case parent of None \<Rightarrow> True | Some p \<Rightarrow> slug_basename p) \<longrightarrow> all_nodes slug_basename a \<longrightarrow>
         finalize rt options0 parent a = Inr a' \<longrightarrow> all_nodes slug_basename a')"
  "(\<forall>as'. slug_basename this \<longrightarrow> (\<forall>c\<in>set as. all_nodes slug_basename c) \<longrightarrow>
         finalize_albums rt options this as = Inr as' \<longrightarrow> (\<forall>c\<in>set as'. all_nodes slug_basename c))"
proof (induction rt options0 parent a and rt options this as rule: finalize_finalize_albums.induct)
  case (1 rt options0 parent n as)
  show ?case
  proof (intro allI impI)
    fix a'
    assume par: "case parent of None \<Rightarrow> True | Some p \<Rightarrow> slug_basename p"
      and tree: "all_nodes slug_basename (Album n as)"
      and fin: "finalize rt options0 parent (Album n as) = Inr a'"
    define options where "options = (case options0 of None \<Rightarrow> empty_options | Some given \<Rightarrow> given)"
    define this where "this = Album (finalize_paths rt options parent n) as"
    from fin obtain as' where
      loop: "finalize_albums rt options this as = Inr as'"
      and calc: "finalize_calculations options (Album (node this) as') = Inr a'"
      by (auto simp: Let_def options_def this_def split: sum.splits)
    from tree have own: "list_all slug_char (basename n)"
      and sub: "\<forall>c\<in>set as. all_nodes slug_basename c"
      by (simp_all add: slug_basename_def)
    have this_ok: "slug_basename this"
      unfolding slug_basename_def this_def using slug_finalize_paths [OF own par] by simp
    have kids: "\<forall>c\<in>set as'. all_nodes slug_basename c"
      using "1.IH" [OF options_def this_def] this_ok sub loop by blast
    have "set (albums a') = set as'"
      using finalize_calculations_albums [OF calc] by (auto dest: mset_eq_setD)
    moreover have "slug_basename a'"
      using finalize_calculations_kept(2) [OF calc] this_ok by (simp add: slug_basename_def)
    ultimately show "all_nodes slug_basename a'"
      using kids by (subst all_nodes_children) simp
  qed
next
  case (2 rt options this)
  show ?case by simp
next
  case (3 rt options this a as)
  show ?case
  proof (intro allI impI)
    fix as'
    assume this_ok: "slug_basename this"
      and sub: "\<forall>c\<in>set (a # as). all_nodes slug_basename c"
      and loop: "finalize_albums rt options this (a # as) = Inr as'"
    from loop obtain a' as'' where
      a': "finalize rt (Some options) (Some this) a = Inr a'"
      and as'': "finalize_albums rt options this as = Inr as''" and eq: "as' = a' # as''"
      by (auto split: sum.splits)
    have "all_nodes slug_basename a'"
      using "3.IH"(1) this_ok sub a' by simp
    moreover have "\<forall>c\<in>set as''. all_nodes slug_basename c"
      using "3.IH"(2) [OF a'] this_ok sub as'' by simp
    ultimately show "\<forall>c\<in>set as'. all_nodes slug_basename c" using eq by simp
  qed
qed

text \<open>
  C10. The base name of every album the constructor builds consists of ASCII letters,
  digits, hyphens and underscores only (it is the title with every other character
  removed), and finalize keeps this for every album of the tree: the rewrite with the
  parent's base name puts a hyphen between two such strings.
\<close>

theorem basename_character_class:
  "slug_basename (fst (new_Album opts counter)) \<and>
   basename (node (fst (new_Album opts counter)))
     = filter slug_char (title (node (fst (new_Album opts counter)))) \<and>
   (all_nodes slug_basename a \<and> (case parent of None \<Rightarrow> True | Some p \<Rightarrow> slug_basename p) \<and>
    finalize rt options parent a = Inr a' \<longrightarrow> all_nodes slug_basename a')"
proof (intro conjI)
  have b: "basename (node (fst (new_Album opts counter)))
             = sanitise (title (node (fst (new_Album opts counter))))"
    by (simp add: new_Album_def Let_def)
  show "slug_basename (fst (new_Album opts counter))"
    unfolding slug_basename_def b by (rule slug_sanitise)
  show "basename (node (fst (new_Album opts counter)))
     = filter slug_char (title (node (fst (new_Album opts counter))))"
    unfolding b by (rule sanitise_filter)
  show "all_nodes slug_basename a \<and> (case parent of None \<Rightarrow> True | Some p \<Rightarrow> slug_basename p) \<and>
    finalize rt options parent a = Inr a' \<longrightarrow> all_nodes slug_basename a'"
    using slug_finalize_aux(1) [of parent a rt options] by blast
qed

theorem basename_character_class_witness:
  "slug_basename (fst (new_Album (Title ''My Album (2023)'') 0)) \<and>
   basename (node (fst (new_Album (Title ''My Album (2023)'') 0))) = ''MyAlbum2023'' \<and>
   all_nodes slug_basename ex_root \<and>
   finalize ex_runtime (Some ex_options) None ex_root = Inr ex_root_finalized \<and>
   all_nodes slug_basename ex_root_finalized"
proof -
  have 1: "all_nodes slug_basename ex_root" by code_simp
  have 2: "basename (node (fst (new_Album (Title ''My Album (2023)'') 0))) = ''MyAlbum2023''"
    by code_simp
  note inst = basename_character_class [of "Title ''My Album (2023)''" 0 ex_root None ex_runtime
      "Some ex_options" ex_root_finalized]
  from inst have 3: "slug_basename (fst (new_Album (Title ''My Album (2023)'') 0))"
    by (elim conjE)
  from inst 1 ex_root_finalize have 4: "all_nodes slug_basename ex_root_finalized"
    by simp
  from 1 2 3 4 ex_root_finalize show ?thesis by (intro conjI)
qed

subsection \<open>Base name chaining\<close>

text \<open>
  C5, as the specification states it: after finalize, the base name of B is the base name
  of A, a hyphen and \<^verbatim>\<open>sanitise(B.title)\<close>. With \<^verbatim>\<open>titleizeAlbumNames\<close> finalize
  rewrites the title and leaves the base name the constructor derived from the old one:
  the title of B is \<^verbatim>\<open>B\<close> and its base name \<^verbatim>\<open>a-b\<close>.
\<close>

theorem basename_chaining_counterexample:
  "finalize ex_runtime (Some ex_titleize) None ex_chain = Inr ex_chain_finalized \<and>
   albums ex_chain_finalized = [ex_chain_A] \<and> albums ex_chain_A = [ex_chain_B] \<and>
   title (node ex_chain_B) = ''B'' \<and> basename (node ex_chain_A) = ''a'' \<and>
   basename (node ex_chain_B) = ''a-b'' \<and>
   basename (node ex_chain_B)
     \<noteq> basename (node ex_chain_A) @ ''-'' @ sanitise (title (node ex_chain_B))"
  by code_simp

text \<open>
  C5, amended. In a tree built by the constructor, after finalize of the root, every
  album B' nested in an album A' nested in the root is the finalized form of an album B
  of an album A of the root such that the base name of B' is the base name of A' (as
  finalized), a hyphen and \<^verbatim>\<open>sanitise\<close> of the title B had before finalize, and the
  base name of A' is \<^verbatim>\<open>sanitise\<close> of the title A had before finalize, with no prefix.
  The titles after finalize are those titles unless \<^verbatim>\<open>titleizeAlbumNames\<close> is set.
\<close>

theorem basename_chaining:
  assumes fin: "finalize rt options None root = Inr root'"
    and A': "A' \<in> set (albums root')" and B': "B' \<in> set (albums A')"
    and built: "constructed_below root"
  shows "\<exists>A\<in>set (albums root). \<exists>B\<in>set (albums A).
           ident (node A') = ident (node A) \<and> ident (node B') = ident (node B) \<and>
           title (node A') = finalized_title options (title (node A)) \<and>
           title (node B') = finalized_title options (title (node B)) \<and>
           basename (node A') = sanitise (title (node A)) \<and>
           basename (node B') = basename (node A') @ ''-'' @ sanitise (title (node B))"
proof -
  define opts where "opts = (case options of None \<Rightarrow> empty_options | Some given \<Rightarrow> given)"
  define thisR where "thisR = Album (finalize_paths rt opts None (node root)) (albums root)"
  have same: "(case Some opts of None \<Rightarrow> empty_options | Some given \<Rightarrow> given) = opts" by simp
  have t: "(if titleizeAlbumNames opts then titleize s else s) = finalized_title options s" for s
    by (simp add: finalized_title_def opts_def empty_options_def split: option.splits)
  from finalize_child [OF fin A'] obtain A where A: "A \<in> set (albums root)"
    and finA: "finalize rt (Some opts) (Some thisR) A = Inr A'"
    unfolding opts_def thisR_def by blast
  define thisA where "thisA = Album (finalize_paths rt opts (Some thisR) (node A)) (albums A)"
  from finalize_child [OF finA B'] obtain B where B: "B \<in> set (albums A)"
    and finB: "finalize rt (Some opts) (Some thisA) B = Inr B'"
    unfolding thisA_def same by blast
  have dR: "depth (node thisR) = 0"
    by (simp add: thisR_def finalize_paths_depth)
  have bA: "basename (node A') = basename (node A)"
    using finalize_node_kept(1) [OF finA] dR by (simp add: finalize_paths_basename)
  have dA: "depth (node thisA) = 1" and bthisA: "basename (node thisA) = basename (node A)"
    using dR by (simp_all add: thisA_def finalize_paths_depth finalize_paths_basename)
  have bB: "basename (node B') = basename (node A') @ ''-'' @ basename (node B)"
    using finalize_node_kept(1) [OF finB] dA bthisA bA by (simp add: finalize_paths_basename)
  have tA: "title (node A') = finalized_title options (title (node A))"
    using finalize_node_kept(3) [OF finA] by (simp add: finalize_paths_title t)
  have tB: "title (node B') = finalized_title options (title (node B))"
    using finalize_node_kept(3) [OF finB] by (simp add: finalize_paths_title t)
  have iA: "ident (node A') = ident (node A)" by (rule finalize_node_kept(4) [OF finA])
  have iB: "ident (node B') = ident (node B)" by (rule finalize_node_kept(4) [OF finB])
  from built A B have "basename (node A) = sanitise (title (node A))"
    and "basename (node B) = sanitise (title (node B))"
    by (auto simp: constructed_below_def constructed_basename_def list_all_iff)
  with A B bA bB tA tB iA iB show ?thesis by auto
qed

theorem basename_chaining_witness:
  "finalize ex_runtime (Some ex_options) None ex_root = Inr ex_root_finalized \<and>
   ex_vacation_finalized \<in> set (albums ex_root_finalized) \<and>
   ex_day_one_finalized \<in> set (albums ex_vacation_finalized) \<and>
   constructed_below ex_root \<and>
   (\<exists>A\<in>set (albums ex_root). \<exists>B\<in>set (albums A).
      ident (node ex_vacation_finalized) = ident (node A) \<and>
      ident (node ex_day_one_finalized) = ident (node B) \<and>
      title (node ex_vacation_finalized) = finalized_title (Some ex_options) (title (node A)) \<and>
      title (node ex_day_one_finalized) = finalized_title (Some ex_options) (title (node B)) \<and>
      basename (node ex_vacation_finalized) = sanitise (title (node A)) \<and>
      basename (node ex_day_one_finalized)
        = basename (node ex_vacation_finalized) @ ''-'' @ sanitise (title (node B)))"
proof -
  have 1: "ex_vacation_finalized \<in> set (albums ex_root_finalized)"
    by (simp add: ex_root_finalized_def)
  have 2: "ex_day_one_finalized \<in> set (albums ex_vacation_finalized)"
    by (simp add: ex_vacation_finalized_def)
  have 3: "constructed_below ex_root" by code_simp
  from basename_chaining [OF ex_root_finalize 1 2 3] ex_root_finalize 1 2 3
  show ?thesis by (intro conjI)
qed

subsection \<open>Numbers first\<close>

lemma numeric_title_match: "numbers_match (title (node a)) = numeric_title a"
  by (simp add: numbers_match_iff numeric_title_def)

lemma title_compare:
  "compareAscending (Str ''Zebra'') (Str ''2023'') = 1"
  "compareAscending (Str ''Zebra'') (Str ''Apple'') = 1"
  "compareAscending (Str ''2023'') (Str ''Apple'') = - 1"
  "compareAscending (Str ''2023'') (Str ''Zebra'') = - 1"
  "compareAscending (Str ''Apple'') (Str ''Zebra'') = - 1"
  "compareAscending (Str ''Apple'') (Str ''2023'') = 1"
  by (simp_all add: compareAscending_def code_def)

lemma sort_three_titles:
  assumes "title (node z) = ''Zebra''" and "title (node n) = ''2023''"
    and "title (node a) = ''Apple''"
  shows "orderBy [z, n, a] (lookup SORT_ALBUMS_BY (Some ''title'')) (Some ''asc'') = Inr [n, a, z]"
  by (simp add: orderBy_def lookup_def SORT_ALBUMS_BY_def array_sort_def compareMultiple_def
        title_compare assms)

lemma numeric_three_titles:
  assumes "title (node z) = ''Zebra''" and "title (node n) = ''2023''"
    and "title (node a) = ''Apple''"
  shows "numeric_title n" "\<not> numeric_title a" "\<not> numeric_title z"
  by (simp_all add: numeric_title_def assms)

lemma ex_shelf_sort: "sort_album ex_numbers_first ex_shelf = Inr ex_shelf_sorted"
  by code_simp

text \<open>
  C7. When \<^verbatim>\<open>sortAlmbumsNumbersFirst\<close> is set, \<^verbatim>\<open>sort\<close> leaves the child albums whose
  title the pattern \<^verbatim>\<open>^[0-9-]+$\<close> matches as a whole in front of the others, each of the
  two groups in the order the sort by key gave it (a stable partition). With albums
  titled Zebra, 2023 and Apple, sorted by title, ascending, the order is 2023, Apple,
  Zebra.
\<close>

theorem numbers_first_partition:
  assumes first: "sortAlmbumsNumbersFirst options"
    and sorted: "sort_album options this = Inr this'"
  shows "\<exists>by_key. orderBy (albums this) (lookup SORT_ALBUMS_BY (sortAlbumsBy options))
                     (sortAlbumsDirection options) = Inr by_key \<and>
           albums this' = filter numeric_title by_key @ filter (\<lambda>a. \<not> numeric_title a) by_key \<and>
           (sortAlbumsBy options = Some ''title'' \<and> sortAlbumsDirection options = Some ''asc'' \<and>
            map (\<lambda>a. title (node a)) (albums this) = [''Zebra'', ''2023'', ''Apple'']
            \<longrightarrow> map (\<lambda>a. title (node a)) (albums this') = [''2023'', ''Apple'', ''Zebra''])"
proof -
  from sorted obtain fs by_key where
    key: "orderBy (albums this) (lookup SORT_ALBUMS_BY (sortAlbumsBy options))
            (sortAlbumsDirection options) = Inr by_key"
    and res: "albums this' = fst (partition_js by_key (\<lambda>a. numbers_match (title (node a))))
                             @ snd (partition_js by_key (\<lambda>a. numbers_match (title (node a))))"
    using first by (auto simp: sort_album_def Let_def split: sum.splits)
  have part: "albums this' = filter numeric_title by_key @ filter (\<lambda>a. \<not> numeric_title a) by_key"
    unfolding res partition_js_filter numeric_title_match by simp
  have ex: "map (\<lambda>a. title (node a)) (albums this') = [''2023'', ''Apple'', ''Zebra'']"
    if skey: "sortAlbumsBy options = Some ''title''"
      and dir: "sortAlbumsDirection options = Some ''asc''"
      and titles: "map (\<lambda>a. title (node a)) (albums this) = [''Zebra'', ''2023'', ''Apple'']"
  proof -
    from titles obtain z n a where as: "albums this = [z, n, a]"
      and tz: "title (node z) = ''Zebra''" and tn: "title (node n) = ''2023''"
      and ta: "title (node a) = ''Apple''"
      unfolding map_eq_Cons_conv by force
    have "by_key = [n, a, z]"
      using key sort_three_titles [OF tz tn ta] unfolding as skey dir by simp
    then have "albums this' = [n, a, z]"
      unfolding part using numeric_three_titles [OF tz tn ta] by simp
    then show ?thesis by (simp only: list.map tz tn ta)
  qed
  show ?thesis
  proof (intro exI conjI impI)
    show "orderBy (albums this) (lookup SORT_ALBUMS_BY (sortAlbumsBy options))
            (sortAlbumsDirection options) = Inr by_key" by (rule key)
    show "albums this' = filter numeric_title by_key @ filter (\<lambda>a. \<not> numeric_title a) by_key"
      by (rule part)
    assume "sortAlbumsBy options = Some ''title'' \<and> sortAlbumsDirection options = Some ''asc'' \<and>
            map (\<lambda>a. title (node a)) (albums this) = [''Zebra'', ''2023'', ''Apple'']"
    then show "map (\<lambda>a. title (node a)) (albums this') = [''2023'', ''Apple'', ''Zebra'']"
      using ex by (elim conjE)
  qed
qed

theorem numbers_first_partition_witness:
  "sortAlmbumsNumbersFirst ex_numbers_first \<and>
   sort_album ex_numbers_first ex_shelf = Inr ex_shelf_sorted \<and>
   map (\<lambda>a. title (node a)) (albums ex_shelf) = [''Zebra'', ''2023'', ''Apple''] \<and>
   map (\<lambda>a. title (node a)) (albums ex_shelf_sorted) = [''2023'', ''Apple'', ''Zebra'']"
proof -
  have 1: "sortAlmbumsNumbersFirst ex_numbers_first" by code_simp
  have 2: "sortAlbumsBy ex_numbers_first = Some ''title''" by code_simp
  have 3: "sortAlbumsDirection ex_numbers_first = Some ''asc''" by code_simp
  have 4: "map (\<lambda>a. title (node a)) (albums ex_shelf) = [''Zebra'', ''2023'', ''Apple'']"
    by code_simp
  from numbers_first_partition [OF 1 ex_shelf_sort] obtain by_key where
    "sortAlbumsBy ex_numbers_first = Some ''title'' \<and>
     sortAlbumsDirection ex_numbers_first = Some ''asc'' \<and>
     map (\<lambda>a. title (node a)) (albums ex_shelf) = [''Zebra'', ''2023'', ''Apple'']
     \<longrightarrow> map (\<lambda>a. title (node a)) (albums ex_shelf_sorted) = [''2023'', ''Apple'', ''Zebra'']"
    by (elim exE conjE)
  then have "map (\<lambda>a. title (node a)) (albums ex_shelf_sorted) = [''2023'', ''Apple'', ''Zebra'']"
    using 2 3 4 by (elim impE) (intro conjI)
  with 1 ex_shelf_sort 4 show ?thesis by (intro conjI)
qed


end
